theory Spec2Isabelle
  imports Complex_Main
begin

section \<open>Tensors and the operations of the numerical engine\<close>

text \<open>
  The program (\<^verbatim>\<open>mnist_gan.py\<close>) builds a Wasserstein GAN from TensorFlow operations.
  A tensor is a shape together with its elements in row-major order. Elements are real
  numbers: the rounding, the infinities and the NaN of 32-bit floating point are not part
  of this model. Operations that TensorFlow rejects (incompatible shapes) return an error.
\<close>

datatype error = ShapeError | ZeroDivisionError | EngineError | CheckpointError

type_synonym 'a result = "error + 'a"

definition bindR :: "'a result \<Rightarrow> ('a \<Rightarrow> 'b result) \<Rightarrow> 'b result" where
  "bindR m f = (case m of Inl e \<Rightarrow> Inl e | Inr x \<Rightarrow> f x)"

record tensor =
  shape :: "nat list"
  data :: "real list"

definition well_shaped :: "tensor \<Rightarrow> bool" where
  "well_shaped t = (length (data t) = prod_list (shape t))"

subsection \<open>Element-wise operations with broadcasting\<close>

text \<open>
  Two shapes are aligned at their last dimension; two dimensions are compatible when they
  are equal or one of them is 1. \<open>broadcast_dims\<close> works on the reversed shapes.
\<close>

fun broadcast_dims :: "nat list \<Rightarrow> nat list \<Rightarrow> nat list option" where
  "broadcast_dims [] ys = Some ys"
| "broadcast_dims xs [] = Some xs"
| "broadcast_dims (x # xs) (y # ys) =
     (if x = y \<or> y = 1 then map_option (Cons x) (broadcast_dims xs ys)
      else if x = 1 then map_option (Cons y) (broadcast_dims xs ys)
      else None)"

definition broadcast_shape :: "nat list \<Rightarrow> nat list \<Rightarrow> nat list option" where
  "broadcast_shape a b = map_option rev (broadcast_dims (rev a) (rev b))"

definition pad_shape :: "nat \<Rightarrow> nat list \<Rightarrow> nat list" where
  "pad_shape n s = replicate (n - length s) 1 @ s"

definition chunks :: "nat \<Rightarrow> nat \<Rightarrow> 'a list \<Rightarrow> 'a list list" where
  "chunks c d xs = map (\<lambda>i. take c (drop (i * c) xs)) [0..<d]"

text \<open>
  \<open>expand src tgt xs\<close> repeats the elements \<open>xs\<close> of a tensor of shape \<open>src\<close> so that
  they fill the shape \<open>tgt\<close>, where every dimension of \<open>src\<close> is that of \<open>tgt\<close> or 1.
\<close>

fun expand :: "nat list \<Rightarrow> nat list \<Rightarrow> 'a list \<Rightarrow> 'a list" where
  "expand (d # ds) (e # es) xs =
     (if d = e then concat (map (expand ds es) (chunks (prod_list ds) d xs))
      else concat (replicate e (expand ds es xs)))"
| "expand ds es xs = xs"

definition tensor_binop :: "(real \<Rightarrow> real \<Rightarrow> real) \<Rightarrow> tensor \<Rightarrow> tensor \<Rightarrow> tensor result" where
  "tensor_binop f a b =
     (case broadcast_shape (shape a) (shape b) of
        None \<Rightarrow> Inl ShapeError
      | Some s \<Rightarrow>
          Inr \<lparr>shape = s,
               data = map2 f (expand (pad_shape (length s) (shape a)) s (data a))
                             (expand (pad_shape (length s) (shape b)) s (data b))\<rparr>)"

definition tensor_add :: "tensor \<Rightarrow> tensor \<Rightarrow> tensor result" where
  "tensor_add = tensor_binop (\<lambda>x y. x + y)"

definition tensor_sub :: "tensor \<Rightarrow> tensor \<Rightarrow> tensor result" where
  "tensor_sub = tensor_binop (\<lambda>x y. x - y)"

definition relu :: "tensor \<Rightarrow> tensor" where
  "relu t = t\<lparr>data := map (\<lambda>x. max x 0) (data t)\<rparr>"

definition sigmoid :: "tensor \<Rightarrow> tensor" where
  "sigmoid t = t\<lparr>data := map (\<lambda>x. 1 / (1 + exp (- x))) (data t)\<rparr>"

text \<open>
  \<open>tf.reduce_mean\<close> without an axis averages all elements and yields a scalar. On a tensor
  without elements TensorFlow yields NaN; here the quotient is HOL's \<open>0 / 0 = 0\<close>, so the
  theorems about means assume a non-empty batch.
\<close>

definition reduce_mean :: "tensor \<Rightarrow> real" where
  "reduce_mean t = sum_list (data t) / real (length (data t))"

text \<open>\<open>tf.clip_by_value\<close> takes the minimum with the upper bound, then the maximum with the lower.\<close>

definition clip_by_value :: "tensor \<Rightarrow> real \<Rightarrow> real \<Rightarrow> tensor" where
  "clip_by_value t lo hi = t\<lparr>data := map (\<lambda>x. max (min x hi) lo) (data t)\<rparr>"

subsection \<open>Matrix product and reshape\<close>

text \<open>
  The weights of a fully connected layer are created as matrices, so \<open>matmul\<close> is the
  product of two matrices; any other pair of ranks is a shape error.
\<close>

definition matmul :: "tensor \<Rightarrow> tensor \<Rightarrow> tensor result" where
  "matmul a b =
     (case (shape a, shape b) of
        ([n, k], [k', m]) \<Rightarrow>
          if k = k' then
            Inr \<lparr>shape = [n, m],
                 data = concat (map (\<lambda>i. map (\<lambda>j.
                          sum_list (map (\<lambda>l. data a ! (i * k + l) * data b ! (l * m + j)) [0..<k]))
                        [0..<m]) [0..<n])\<rparr>
          else Inl ShapeError
      | _ \<Rightarrow> Inl ShapeError)"

definition reshape :: "tensor \<Rightarrow> nat list \<Rightarrow> tensor result" where
  "reshape t s = (if prod_list s = length (data t) then Inr (t\<lparr>shape := s\<rparr>) else Inl ShapeError)"

subsection \<open>Kernels taken from the engine\<close>

text \<open>
  The 'SAME'-padded convolution (\<open>tf.nn.convolution\<close>, with input, filters and optional
  strides) and the image resize (\<open>tf.image.resize_images\<close>) are the engine's; the program
  only calls them, and they are parameters here.
\<close>

record engine =
  convolution :: "tensor \<Rightarrow> tensor \<Rightarrow> nat list option \<Rightarrow> tensor result"
  resize_images :: "tensor \<Rightarrow> nat list \<Rightarrow> tensor result"

section \<open>Layers and networks\<close>

text \<open>
  A \<open>tf.Variable\<close> is identified by its position in the graph's list of variables; the
  graph keeps each variable's initializer. A store gives every variable its current value.
\<close>

type_synonym var = nat

datatype initializer = RandomNormal "nat list" real | Zeros "nat list"

type_synonym graph = "initializer list"

type_synonym store = "var \<Rightarrow> tensor"

definition tf_Variable :: "initializer \<Rightarrow> graph \<Rightarrow> var \<times> graph" where
  "tf_Variable init g = (length g, g @ [init])"

datatype layer =
    FC (weights: var) (biases: var) (activation: bool)
  | Reshape "nat list"
  | Resize "nat list"
  | Conv (filters: var) (biases: var) (strides: "nat list option") (activation: bool)

text \<open>The constructors. \<open>1 / sqrt(in_count)\<close> raises for \<open>in_count = 0\<close>.\<close>

definition FC_init :: "nat \<Rightarrow> nat \<Rightarrow> bool \<Rightarrow> graph \<Rightarrow> (layer \<times> graph) result" where
  "FC_init in_count out_count act g =
     (if sqrt (real in_count) = 0 then Inl ZeroDivisionError
      else
        let stddev = 1 / sqrt (real in_count);
            (w, g1) = tf_Variable (RandomNormal [in_count, out_count] stddev) g;
            (b, g2) = tf_Variable (Zeros [1, out_count]) g1
        in Inr (FC w b act, g2))"

definition Reshape_init :: "nat list \<Rightarrow> graph \<Rightarrow> (layer \<times> graph) result" where
  "Reshape_init shp g = Inr (Reshape shp, g)"

definition Resize_init :: "nat list \<Rightarrow> graph \<Rightarrow> (layer \<times> graph) result" where
  "Resize_init sz g = Inr (Resize sz, g)"

definition Conv_init :: "nat \<Rightarrow> nat \<Rightarrow> nat list option \<Rightarrow> bool \<Rightarrow> graph \<Rightarrow> (layer \<times> graph) result" where
  "Conv_init in_depth out_depth strd act g =
     (if sqrt (real (in_depth * 9)) = 0 then Inl ZeroDivisionError
      else
        let stddev = 1 / sqrt (real (in_depth * 9));
            (f, g1) = tf_Variable (RandomNormal [3, 3, in_depth, out_depth] stddev) g;
            (b, g2) = tf_Variable (Zeros [1, out_depth]) g1
        in Inr (Conv f b strd act, g2))"

text \<open>The \<open>apply\<close> method of each layer class.\<close>

fun apply_layer :: "engine \<Rightarrow> store \<Rightarrow> layer \<Rightarrow> tensor \<Rightarrow> tensor result" where
  "apply_layer E st (FC w b act) inputs =
     bindR (matmul inputs (st w)) (\<lambda>prod.
     bindR (tensor_add prod (st b)) (\<lambda>pre_activation.
       if \<not> act then Inr pre_activation else Inr (relu pre_activation)))"
| "apply_layer E st (Reshape shp) inputs =
     (case shape inputs of
        [] \<Rightarrow> Inl ShapeError
      | n # _ \<Rightarrow> reshape inputs (n # shp))"
| "apply_layer E st (Resize sz) inputs = resize_images E inputs sz"
| "apply_layer E st (Conv f b strd act) inputs =
     bindR (convolution E inputs (st f) strd) (\<lambda>conv_out.
     bindR (tensor_add conv_out (st b)) (\<lambda>pre_activation.
       if \<not> act then Inr pre_activation else Inr (relu pre_activation)))"

text \<open>The \<open>vars\<close> method of each layer class.\<close>

fun layer_vars :: "layer \<Rightarrow> var list" where
  "layer_vars (FC w b act) = [w, b]"
| "layer_vars (Reshape shp) = []"
| "layer_vars (Resize sz) = []"
| "layer_vars (Conv f b strd act) = [f, b]"

fun apply_network :: "engine \<Rightarrow> store \<Rightarrow> layer list \<Rightarrow> tensor \<Rightarrow> tensor result" where
  "apply_network E st [] sub_in = Inr sub_in"
| "apply_network E st (l # network) sub_in =
     bindR (apply_layer E st l sub_in) (apply_network E st network)"

definition network_vars :: "layer list \<Rightarrow> var list" where
  "network_vars network = foldl (\<lambda>res l. res @ layer_vars l) [] network"

section \<open>The GAN\<close>

record gan =
  generator :: "layer list"
  discriminator :: "layer list"

text \<open>A list display evaluates its constructor calls from left to right.\<close>

fun build_layers :: "(graph \<Rightarrow> (layer \<times> graph) result) list \<Rightarrow> graph \<Rightarrow> (layer list \<times> graph) result" where
  "build_layers [] g = Inr ([], g)"
| "build_layers (c # cs) g =
     bindR (c g) (\<lambda>(l, g1).
     bindR (build_layers cs g1) (\<lambda>(ls, g2). Inr (l # ls, g2)))"

definition GAN_init :: "nat \<Rightarrow> graph \<Rightarrow> (gan \<times> graph) result" where
  "GAN_init noise_size g =
     bindR (build_layers
       [FC_init noise_size (14 * 14) True,
        FC_init (14 * 14) (14 * 14) True,
        FC_init (14 * 14) (14 * 14) True,
        Reshape_init [14, 14, 1],
        Resize_init [28, 28],
        Conv_init 1 16 None True,
        Conv_init 16 32 None True,
        Conv_init 32 32 None True,
        Conv_init 32 1 None False] g) (\<lambda>(gen, g1).
     bindR (build_layers
       [Conv_init 1 16 (Some [2, 2]) True,
        Conv_init 16 32 None True,
        Conv_init 32 16 (Some [2, 2]) True,
        Reshape_init [7 * 7 * 16],
        FC_init 784 256 True,
        FC_init 256 256 True,
        FC_init 256 1 False] g1) (\<lambda>(disc, g2).
       Inr (\<lparr>generator = gen, discriminator = disc\<rparr>, g2)))"

definition generate :: "engine \<Rightarrow> gan \<Rightarrow> store \<Rightarrow> tensor \<Rightarrow> tensor result" where
  "generate E G st noise = bindR (apply_network E st (generator G) noise) (\<lambda>t. Inr (sigmoid t))"

definition discriminate :: "engine \<Rightarrow> gan \<Rightarrow> store \<Rightarrow> tensor \<Rightarrow> tensor result" where
  "discriminate E G st images = apply_network E st (discriminator G) images"

definition generator_objective :: "engine \<Rightarrow> gan \<Rightarrow> store \<Rightarrow> tensor \<Rightarrow> real result" where
  "generator_objective E G st noise =
     bindR (generate E G st noise) (\<lambda>gen_out.
     bindR (discriminate E G st gen_out) (\<lambda>score.
       Inr (- reduce_mean score)))"

definition discriminator_objective :: "engine \<Rightarrow> gan \<Rightarrow> store \<Rightarrow> tensor \<Rightarrow> tensor \<Rightarrow> real result" where
  "discriminator_objective E G st noise samples =
     bindR (generate E G st noise) (\<lambda>gen_samples.
     bindR (discriminate E G st gen_samples) (\<lambda>gen_score.
     bindR (discriminate E G st samples) (\<lambda>real_score.
     bindR (tensor_sub gen_score real_score) (\<lambda>diff.
       Inr (reduce_mean diff)))))"

definition generator_vars :: "gan \<Rightarrow> var list" where
  "generator_vars G = network_vars (generator G)"

definition discriminator_vars :: "gan \<Rightarrow> var list" where
  "discriminator_vars G = network_vars (discriminator G)"

text \<open>
  \<open>clip_discriminator\<close> builds one assignment per discriminator variable and groups them;
  running the group runs every assignment.
\<close>

definition assign :: "var \<Rightarrow> tensor \<Rightarrow> store \<Rightarrow> store" where
  "assign x v st = st(x := v)"

definition group :: "(store \<Rightarrow> store) list \<Rightarrow> store \<Rightarrow> store" where
  "group ops st = foldl (\<lambda>s op. op s) st ops"

definition clip_discriminator :: "gan \<Rightarrow> real \<Rightarrow> store \<Rightarrow> store" where
  "clip_discriminator G mag =
     (let disc = discriminator_vars G;
          ops = map (\<lambda>x s. assign x (clip_by_value (s x) (- mag) mag) s) disc
      in group ops)"

section \<open>Samples\<close>

record samples =
  batch_size :: nat
  noise_size :: nat

definition Samples_init :: "nat \<Rightarrow> nat \<Rightarrow> samples" where
  "Samples_init bs ns = \<lparr>batch_size = bs, noise_size = ns\<rparr>"

text \<open>The values fed to the two placeholders \<open>samples.images\<close> and \<open>samples.noise\<close>.\<close>

record feed =
  images :: tensor
  noise :: tensor

text \<open>
  The collaborators of the training loop: the MNIST iterator and numpy's normal generator
  (both as functions of the number of batches drawn so far), and the Adam update, which
  computes from its own state, the loss as a function of the variables, and the variable
  list, its next state and the new value of each listed variable.
\<close>

record 'o env =
  next_batch :: "nat \<Rightarrow> nat \<Rightarrow> tensor"
  random_normal :: "nat \<Rightarrow> nat list \<Rightarrow> tensor"
  adam :: "'o \<Rightarrow> (store \<Rightarrow> real result) \<Rightarrow> var list \<Rightarrow> store \<Rightarrow> ('o \<times> (var \<Rightarrow> tensor)) result"

definition sample_feed_dict :: "'o env \<Rightarrow> samples \<Rightarrow> nat \<Rightarrow> (feed \<times> nat) result" where
  "sample_feed_dict W smp n =
     (let mnist_batch = next_batch W n (batch_size smp);
          noise_batch = random_normal W n [batch_size smp, noise_size smp]
      in bindR (reshape mnist_batch [batch_size smp, 28, 28, 1]) (\<lambda>imgs.
           Inr (\<lparr>images = imgs, noise = noise_batch\<rparr>, Suc n)))"

section \<open>Optimizers and the session\<close>

text \<open>
  \<open>minimize(loss, var_list)\<close> of \<open>tf.train.AdamOptimizer\<close> assigns the values Adam computes
  to the variables of \<open>var_list\<close>, and to no other variable of the model.
\<close>

definition minimize ::
  "'o env \<Rightarrow> (store \<Rightarrow> real result) \<Rightarrow> var list \<Rightarrow> 'o \<Rightarrow> store \<Rightarrow> ('o \<times> store) result" where
  "minimize W loss var_list opt st =
     bindR (adam W opt loss var_list st) (\<lambda>(opt', new).
       Inr (opt', \<lambda>v. if v \<in> set var_list then new v else st v))"

text \<open>
  The session holds the variables and the two optimizers' states; with it are kept the
  checkpoint file, the number of batches drawn, what was printed (the two numbers of each
  line), and a log of the calls made, in program order.
\<close>

datatype event =
    SampleBatch | RunDiscObj | RunOptDisc | RunClipDisc
  | RunGenObj | PrintLosses | RunOptGen | SaveCheckpoint

record 'o session =
  variables :: store
  gen_adam :: 'o
  disc_adam :: 'o
  checkpoint :: "store option"
  draws :: nat
  stdout :: "(real \<times> real) list"
  events :: "event list"

definition log_event :: "event \<Rightarrow> 'o session \<Rightarrow> 'o session" where
  "log_event e s = s\<lparr>events := events s @ [e]\<rparr>"

text \<open>A fed value must have the shape of its placeholder.\<close>

definition check_feed :: "samples \<Rightarrow> feed \<Rightarrow> unit result" where
  "check_feed smp batch =
     (if shape (images batch) = [batch_size smp, 28, 28, 1]
         \<and> shape (noise batch) = [batch_size smp, noise_size smp]
      then Inr () else Inl ShapeError)"

definition sample_batch :: "'o env \<Rightarrow> samples \<Rightarrow> 'o session \<Rightarrow> (feed \<times> 'o session) result" where
  "sample_batch W smp s =
     bindR (sample_feed_dict W smp (draws s)) (\<lambda>(batch, n).
       Inr (batch, log_event SampleBatch (s\<lparr>draws := n\<rparr>)))"

definition run_disc_obj ::
  "engine \<Rightarrow> gan \<Rightarrow> samples \<Rightarrow> feed \<Rightarrow> 'o session \<Rightarrow> (real \<times> 'o session) result" where
  "run_disc_obj E G smp batch s =
     bindR (check_feed smp batch) (\<lambda>_.
     bindR (discriminator_objective E G (variables s) (noise batch) (images batch)) (\<lambda>l.
       Inr (l, log_event RunDiscObj s)))"

definition run_gen_obj ::
  "engine \<Rightarrow> gan \<Rightarrow> samples \<Rightarrow> feed \<Rightarrow> 'o session \<Rightarrow> (real \<times> 'o session) result" where
  "run_gen_obj E G smp batch s =
     bindR (check_feed smp batch) (\<lambda>_.
     bindR (generator_objective E G (variables s) (noise batch)) (\<lambda>l.
       Inr (l, log_event RunGenObj s)))"

definition run_opt_disc ::
  "'o env \<Rightarrow> engine \<Rightarrow> gan \<Rightarrow> samples \<Rightarrow> feed \<Rightarrow> 'o session \<Rightarrow> 'o session result" where
  "run_opt_disc W E G smp batch s =
     bindR (check_feed smp batch) (\<lambda>_.
     bindR (minimize W (\<lambda>st. discriminator_objective E G st (noise batch) (images batch))
              (discriminator_vars G) (disc_adam s) (variables s)) (\<lambda>(opt, st).
       Inr (log_event RunOptDisc (s\<lparr>variables := st, disc_adam := opt\<rparr>))))"

definition run_opt_gen ::
  "'o env \<Rightarrow> engine \<Rightarrow> gan \<Rightarrow> samples \<Rightarrow> feed \<Rightarrow> 'o session \<Rightarrow> 'o session result" where
  "run_opt_gen W E G smp batch s =
     bindR (check_feed smp batch) (\<lambda>_.
     bindR (minimize W (\<lambda>st. generator_objective E G st (noise batch))
              (generator_vars G) (gen_adam s) (variables s)) (\<lambda>(opt, st).
       Inr (log_event RunOptGen (s\<lparr>variables := st, gen_adam := opt\<rparr>))))"

definition run_clip_disc :: "gan \<Rightarrow> 'o session \<Rightarrow> 'o session" where
  "run_clip_disc G s =
     log_event RunClipDisc (s\<lparr>variables := clip_discriminator G (1 / 100) (variables s)\<rparr>)"

definition print_losses :: "real \<Rightarrow> real \<Rightarrow> 'o session \<Rightarrow> 'o session" where
  "print_losses d g s = log_event PrintLosses (s\<lparr>stdout := stdout s @ [(d, g)]\<rparr>)"

definition saver_save :: "'o session \<Rightarrow> 'o session" where
  "saver_save s = log_event SaveCheckpoint (s\<lparr>checkpoint := Some (variables s)\<rparr>)"

definition saver_restore :: "'o session \<Rightarrow> 'o session result" where
  "saver_restore s =
     (case checkpoint s of
        None \<Rightarrow> Inl CheckpointError
      | Some st \<Rightarrow> Inr (s\<lparr>variables := st\<rparr>))"

section \<open>The training loop\<close>

text \<open>The body of \<open>for _ in range(0, 30)\<close>, with the number of rounds still to run.\<close>

fun disc_steps ::
  "nat \<Rightarrow> 'o env \<Rightarrow> engine \<Rightarrow> gan \<Rightarrow> samples \<Rightarrow> real list \<Rightarrow> 'o session
     \<Rightarrow> (real list \<times> 'o session) result" where
  "disc_steps 0 W E G smp losses s = Inr (losses, s)"
| "disc_steps (Suc n) W E G smp losses s =
     bindR (sample_batch W smp s) (\<lambda>(batch, s1).
     bindR (run_disc_obj E G smp batch s1) (\<lambda>(l, s2).
     bindR (run_opt_disc W E G smp batch s2) (\<lambda>s3.
       disc_steps n W E G smp (losses @ [l]) (run_clip_disc G s3))))"

text \<open>The body of \<open>while True\<close>.\<close>

definition train_iteration ::
  "'o env \<Rightarrow> engine \<Rightarrow> gan \<Rightarrow> samples \<Rightarrow> 'o session \<Rightarrow> 'o session result" where
  "train_iteration W E G smp s =
     bindR (disc_steps 30 W E G smp [] s) (\<lambda>(losses, s1).
     bindR (sample_batch W smp s1) (\<lambda>(batch, s2).
     bindR (run_gen_obj E G smp batch s2) (\<lambda>(loss, s3).
     bindR (run_opt_gen W E G smp batch
              (print_losses (sum_list losses / real (length losses)) loss s3)) (\<lambda>s4.
       Inr (saver_save s4)))))"

text \<open>
  The loop has no exit: it ends only when a step fails, and the failure is its result.
  \<open>None\<close> is the run that never ends.
\<close>

partial_function (option) train_loop ::
  "'o env \<Rightarrow> engine \<Rightarrow> gan \<Rightarrow> samples \<Rightarrow> 'o session \<Rightarrow> error option" where
  "train_loop W E G smp s =
     (case train_iteration W E G smp s of
        Inl e \<Rightarrow> Some e
      | Inr s' \<Rightarrow> train_loop W E G smp s')"

definition train :: "'o env \<Rightarrow> engine \<Rightarrow> 'o session \<Rightarrow> error option" where
  "train W E s0 =
     (case GAN_init 100 [] of
        Inl e \<Rightarrow> Some e
      | Inr (G, g) \<Rightarrow>
          (case saver_restore s0 of
             Inl e \<Rightarrow> Some e
           | Inr s \<Rightarrow> train_loop W E G (Samples_init 128 100) s))"

section \<open>The command line\<close>

datatype effect =
    PrintLine string
  | SysExit "int option"
  | CallCreate
  | CallTrain
  | CallGenerate

definition usage :: string where
  "usage = ''Usage: mnist_gan <create | train | generate>''"

definition main :: "string list \<Rightarrow> effect list" where
  "main argv =
     (if length argv < 2 then [PrintLine usage, SysExit None]
      else if argv ! 1 = ''create'' then [CallCreate]
      else if argv ! 1 = ''train'' then [CallTrain]
      else if argv ! 1 = ''generate'' then [CallGenerate]
      else [PrintLine (''Unknown command: '' @ argv ! 1), SysExit None])"

text \<open>The status the process ends with: that of the first \<open>sys.exit\<close>, where no argument means 0.\<close>

fun exit_status :: "effect list \<Rightarrow> int" where
  "exit_status [] = 0"
| "exit_status (SysExit None # es) = 0"
| "exit_status (SysExit (Some n) # es) = n"
| "exit_status (e # es) = exit_status es"

fun model_operation :: "effect \<Rightarrow> bool" where
  "model_operation CallCreate = True"
| "model_operation CallTrain = True"
| "model_operation CallGenerate = True"
| "model_operation e = False"

section \<open>Specification vocabulary\<close>

text \<open>The mean over a batch of \<open>B\<close> examples of a per-example quantity.\<close>

definition batch_mean :: "(nat \<Rightarrow> real) \<Rightarrow> nat \<Rightarrow> real" where
  "batch_mean f B = (\<Sum>i<B. f i) / real B"

text \<open>
  The calls of one round of the discriminator phase and of the generator phase, as the
  loop body makes them.
\<close>

definition disc_round :: "event list" where
  "disc_round = [SampleBatch, RunDiscObj, RunOptDisc, RunClipDisc]"

definition gen_round :: "event list" where
  "gen_round = [SampleBatch, RunGenObj, PrintLosses, RunOptGen, SaveCheckpoint]"

text \<open>\<open>precedes a b tr\<close>: some \<open>b\<close> occurs in \<open>tr\<close> after the first \<open>a\<close>.\<close>

definition precedes :: "'a \<Rightarrow> 'a \<Rightarrow> 'a list \<Rightarrow> bool" where
  "precedes a b tr = (b \<in> set (dropWhile (\<lambda>e. e \<noteq> a) tr))"

text \<open>\<open>each_followed_by a b tr\<close>: the element right after every \<open>a\<close> in \<open>tr\<close> is \<open>b\<close>.\<close>

fun each_followed_by :: "'a \<Rightarrow> 'a \<Rightarrow> 'a list \<Rightarrow> bool" where
  "each_followed_by a b [] = True"
| "each_followed_by a b (x # tr) = ((x = a \<longrightarrow> take 1 tr = [b]) \<and> each_followed_by a b tr)"

text \<open>
  The effect of the loop on the session, apart from the log. \<open>keeps s t\<close>: the variables,
  both optimizers, the checkpoint and the output of \<open>t\<close> are those of \<open>s\<close>.
\<close>

definition keeps :: "'o session \<Rightarrow> 'o session \<Rightarrow> bool" where
  "keeps s t =
     (variables t = variables s \<and> gen_adam t = gen_adam s \<and> disc_adam t = disc_adam s
      \<and> checkpoint t = checkpoint s \<and> stdout t = stdout s)"

text \<open>
  \<open>disc_update W E G smp s l t\<close>: \<open>t\<close> is \<open>s\<close> after one discriminator update. A batch
  is drawn; \<open>l\<close> is the discriminator loss on it at the variables of \<open>s\<close>; the discriminator's
  optimizer makes its gradient step on the discriminator's variables; and the variables of
  \<open>t\<close> are the result of that step with the weight clip applied to it.
\<close>

definition disc_update ::
  "'o env \<Rightarrow> engine \<Rightarrow> gan \<Rightarrow> samples \<Rightarrow> 'o session \<Rightarrow> real \<Rightarrow> 'o session \<Rightarrow> bool" where
  "disc_update W E G smp s l t =
     (\<exists>batch opt st.
        sample_feed_dict W smp (draws s) = Inr (batch, draws t)
      \<and> discriminator_objective E G (variables s) (noise batch) (images batch) = Inr l
      \<and> minimize W (\<lambda>st. discriminator_objective E G st (noise batch) (images batch))
           (discriminator_vars G) (disc_adam s) (variables s) = Inr (opt, st)
      \<and> disc_adam t = opt
      \<and> variables t = clip_discriminator G (1 / 100) st
      \<and> gen_adam t = gen_adam s \<and> checkpoint t = checkpoint s \<and> stdout t = stdout s)"

text \<open>A chain of discriminator updates from \<open>s\<close> to \<open>t\<close>, one for each loss of the list.\<close>

fun disc_updates ::
  "'o env \<Rightarrow> engine \<Rightarrow> gan \<Rightarrow> samples \<Rightarrow> 'o session \<Rightarrow> real list \<Rightarrow> 'o session \<Rightarrow> bool" where
  "disc_updates W E G smp s [] t = (keeps s t \<and> draws t = draws s)"
| "disc_updates W E G smp s (l # ls) t =
     (\<exists>m. disc_update W E G smp s l m \<and> disc_updates W E G smp m ls t)"

text \<open>
  \<open>gen_update W E G smp s t\<close>: \<open>t\<close> is \<open>s\<close> after one generator update. A batch is
  drawn, and the generator's optimizer makes its gradient step on the generator's variables.
\<close>

definition gen_update ::
  "'o env \<Rightarrow> engine \<Rightarrow> gan \<Rightarrow> samples \<Rightarrow> 'o session \<Rightarrow> 'o session \<Rightarrow> bool" where
  "gen_update W E G smp s t =
     (\<exists>batch opt st.
        sample_feed_dict W smp (draws s) = Inr (batch, draws t)
      \<and> minimize W (\<lambda>st. generator_objective E G st (noise batch))
           (generator_vars G) (gen_adam s) (variables s) = Inr (opt, st)
      \<and> gen_adam t = opt
      \<and> variables t = st
      \<and> disc_adam t = disc_adam s)"

section \<open>Concrete configurations\<close>

text \<open>The model that \<open>GAN()\<close> builds in an empty graph.\<close>

definition mnist_gan :: gan where
  "mnist_gan =
     \<lparr>generator =
        [FC 0 1 True, FC 2 3 True, FC 4 5 True, Reshape [14, 14, 1], Resize [28, 28],
         Conv 6 7 None True, Conv 8 9 None True, Conv 10 11 None True, Conv 12 13 None False],
      discriminator =
        [Conv 14 15 (Some [2, 2]) True, Conv 16 17 None True, Conv 18 19 (Some [2, 2]) True,
         Reshape [784], FC 20 21 True, FC 22 23 True, FC 24 25 False]\<rparr>"

definition const_store :: "nat list \<Rightarrow> real list \<Rightarrow> store" where
  "const_store s xs = (\<lambda>v. \<lparr>shape = s, data = xs\<rparr>)"

definition zero_tensor :: "nat list \<Rightarrow> tensor" where
  "zero_tensor s = \<lparr>shape = s, data = replicate (prod_list s) 0\<rparr>"

definition id_engine :: engine where
  "id_engine = \<lparr>convolution = (\<lambda>x f s. Inr x), resize_images = (\<lambda>x s. Inr x)\<rparr>"

text \<open>A generator and a critic of one fully connected layer each, on batches of two.\<close>

definition pair_gan :: gan where
  "pair_gan = \<lparr>generator = [FC 0 1 True], discriminator = [FC 2 3 False]\<rparr>"

definition pair_store :: store where
  "pair_store v =
     (if v = 0 then \<lparr>shape = [1, 2], data = [0, 0]\<rparr>
      else if v = 1 then \<lparr>shape = [1, 2], data = [0, 0]\<rparr>
      else if v = 2 then \<lparr>shape = [2, 1], data = [2, 4]\<rparr>
      else \<lparr>shape = [1, 1], data = [1]\<rparr>)"

definition pair_noise :: tensor where
  "pair_noise = \<lparr>shape = [2, 1], data = [0, 0]\<rparr>"

definition pair_samples :: tensor where
  "pair_samples = \<lparr>shape = [2, 2], data = [1, 1, 1, 1]\<rparr>"

text \<open>
  A model on 28 by 28 images whose parameters start at zero, a dataset of white images,
  and an optimizer whose step adds one to every element of every listed variable.
  \<open>level_store a b\<close> gives every generator parameter the value \<open>a\<close> and every
  discriminator parameter the value \<open>b\<close>.
\<close>

definition small_gan :: gan where
  "small_gan = \<lparr>generator = [FC 0 1 True, Reshape [28, 28, 1]],
                discriminator = [Reshape [784], FC 2 3 False]\<rparr>"

definition level_store :: "real \<Rightarrow> real \<Rightarrow> store" where
  "level_store a b v =
     (if v = 0 \<or> v = 1 then \<lparr>shape = [1, 784], data = replicate 784 a\<rparr>
      else if v = 2 then \<lparr>shape = [784, 1], data = replicate 784 b\<rparr>
      else if v = 3 then \<lparr>shape = [1, 1], data = [b]\<rparr>
      else \<lparr>shape = [1, 1], data = [0]\<rparr>)"

definition shift_env :: "nat env" where
  "shift_env =
     \<lparr>next_batch = (\<lambda>n b. \<lparr>shape = [b, 784], data = replicate (b * 784) 1\<rparr>),
      random_normal = (\<lambda>n s. zero_tensor s),
      adam = (\<lambda>opt loss var_list st. bindR (loss st) (\<lambda>l.
                Inr (Suc opt, \<lambda>v. (st v)\<lparr>data := map (\<lambda>x. x + 1) (data (st v))\<rparr>)))\<rparr>"

definition small_samples :: samples where
  "small_samples = Samples_init 1 1"

definition white_feed :: feed where
  "white_feed = \<lparr>images = \<lparr>shape = [1, 28, 28, 1], data = replicate 784 1\<rparr>,
                 noise = zero_tensor [1, 1]\<rparr>"

definition first_session :: "nat session" where
  "first_session =
     \<lparr>variables = level_store 0 0, gen_adam = 0, disc_adam = 0, checkpoint = None,
      draws = 0, stdout = [], events = []\<rparr>"

definition first_session_after :: "nat session" where
  "first_session_after =
     \<lparr>variables = level_store 1 (1 / 100), gen_adam = 1, disc_adam = 30,
      checkpoint = Some (level_store 1 (1 / 100)), draws = 31,
      stdout = [(- (1421 / 375), - (393 / 100))],
      events = concat (replicate 30 disc_round) @ gen_round\<rparr>"

text \<open>An optimizer that sets every listed variable to a one-element zero tensor.\<close>

definition fixed_env :: "nat env" where
  "fixed_env =
     \<lparr>next_batch = (\<lambda>n b. zero_tensor [b, 784]),
      random_normal = (\<lambda>n s. zero_tensor s),
      adam = (\<lambda>opt loss var_list st. Inr (Suc opt, \<lambda>v. zero_tensor [1]))\<rparr>"

definition default_feed :: feed where
  "default_feed = \<lparr>images = zero_tensor [128, 28, 28, 1], noise = zero_tensor [128, 100]\<rparr>"

definition plain_session :: "nat session" where
  "plain_session =
     \<lparr>variables = const_store [2] [5, - 3], gen_adam = 0, disc_adam = 0, checkpoint = None,
      draws = 0, stdout = [], events = []\<rparr>"

section \<open>Variables of the networks\<close>

lemma network_vars_concat: "network_vars ls = concat (map layer_vars ls)"
proof -
  have "foldl (\<lambda>res l. res @ layer_vars l) acc ls = acc @ concat (map layer_vars ls)" for acc
    by (induction ls arbitrary: acc) simp_all
  then show ?thesis by (simp add: network_vars_def)
qed


lemmas init_defs = GAN_init_def bindR_def FC_init_def Conv_init_def Reshape_init_def
  Resize_init_def tf_Variable_def Let_def

text \<open>
  The constructor gives the generator the first fourteen fresh variables and the
  discriminator the next twelve.
\<close>

lemma GAN_init_generator_vars:
  assumes "GAN_init n g = Inr (G, g')"
  shows "v \<in> set (generator_vars G) \<longleftrightarrow> length g \<le> v \<and> v < length g + 14"
proof -
  have "generator_vars G = map (\<lambda>i. length g + i) [0, 1, 2, 3, 4, 5, 6, 7, 8, 9, 10, 11, 12, 13]"
    using assms
    by (auto simp add: init_defs generator_vars_def network_vars_concat split: if_splits)
  then show ?thesis by simp arith
qed

lemma GAN_init_discriminator_vars:
  assumes "GAN_init n g = Inr (G, g')"
  shows "v \<in> set (discriminator_vars G) \<longleftrightarrow> length g + 14 \<le> v \<and> v < length g + 26"
proof -
  have "discriminator_vars G =
          map (\<lambda>i. length g + i) [14, 15, 16, 17, 18, 19, 20, 21, 22, 23, 24, 25]"
    using assms
    by (auto simp add: init_defs discriminator_vars_def network_vars_concat split: if_splits)
  then show ?thesis by simp arith
qed

lemma GAN_init_disjoint:
  "GAN_init n g = Inr (G, g') \<Longrightarrow> set (generator_vars G) \<inter> set (discriminator_vars G) = {}"
  using GAN_init_generator_vars GAN_init_discriminator_vars by fastforce

lemma GAN_init_default: "\<exists>g. GAN_init 100 [] = Inr (mnist_gan, g)"
  by (simp add: init_defs mnist_gan_def)

lemma mnist_gan_vars:
  "generator_vars mnist_gan = [0, 1, 2, 3, 4, 5, 6, 7, 8, 9, 10, 11, 12, 13]"
  "discriminator_vars mnist_gan = [14, 15, 16, 17, 18, 19, 20, 21, 22, 23, 24, 25]"
  by (simp_all add: mnist_gan_def generator_vars_def discriminator_vars_def network_vars_concat)

section \<open>Weight clipping\<close>

lemma clip_elem_idem: "max (min (max (min x hi) lo) hi) lo = max (min x hi) (lo::real)"
  by (simp add: max_def min_def)

lemma clip_elem_bounds:
  "0 \<le> mag \<Longrightarrow> - mag \<le> max (min x mag) (- mag) \<and> max (min x mag) (- mag) \<le> (mag::real)"
  by (simp add: max_def min_def)

lemma clip_by_value_idem: "clip_by_value (clip_by_value t lo hi) lo hi = clip_by_value t lo hi"
  by (simp add: clip_by_value_def o_def clip_elem_idem)

lemma group_clip:
  "foldl (\<lambda>s op. op s) st (map (\<lambda>x s. assign x (clip_by_value (s x) lo hi) s) xs) v =
     (if v \<in> set xs then clip_by_value (st v) lo hi else st v)"
proof (induction xs arbitrary: st)
  case Nil
  show ?case by simp
next
  case (Cons x xs)
  let ?st1 = "assign x (clip_by_value (st x) lo hi) st"
  have "foldl (\<lambda>s op. op s) st (map (\<lambda>x s. assign x (clip_by_value (s x) lo hi) s) (x # xs)) v
      = foldl (\<lambda>s op. op s) ?st1 (map (\<lambda>x s. assign x (clip_by_value (s x) lo hi) s) xs) v"
    by simp
  also have "\<dots> = (if v \<in> set xs then clip_by_value (?st1 v) lo hi else ?st1 v)"
    by (rule Cons.IH)
  also have "\<dots> = (if v \<in> set (x # xs) then clip_by_value (st v) lo hi else st v)"
    by (simp add: assign_def clip_by_value_idem)
  finally show ?case .
qed

lemma clip_discriminator_apply:
  "clip_discriminator G mag st v =
     (if v \<in> set (discriminator_vars G) then clip_by_value (st v) (- mag) mag else st v)"
  by (simp add: clip_discriminator_def Let_def group_def group_clip)



text \<open>
  C6. \<open>clip_discriminator\<close> is idempotent: from every store, clipping twice gives the store
  that clipping once gives. A single clip keeps the shape and the number of elements of
  every tensor, and leaves unchanged every element that already lies between \<open>- mag\<close> and
  \<open>mag\<close>. This holds for every magnitude, the default 0.01 included.
\<close>

theorem clip_discriminator_idempotent:
  "clip_discriminator G mag (clip_discriminator G mag st) = clip_discriminator G mag st
   \<and> (\<forall>v. shape (clip_discriminator G mag st v) = shape (st v)
          \<and> length (data (clip_discriminator G mag st v)) = length (data (st v)))
   \<and> (\<forall>v i. i < length (data (st v)) \<and> - mag \<le> data (st v) ! i \<and> data (st v) ! i \<le> mag
          \<longrightarrow> data (clip_discriminator G mag st v) ! i = data (st v) ! i)"
proof (intro conjI allI impI)
  show "clip_discriminator G mag (clip_discriminator G mag st) = clip_discriminator G mag st"
    by (rule ext) (simp add: clip_discriminator_apply clip_by_value_idem)
next
  fix v
  show "shape (clip_discriminator G mag st v) = shape (st v)"
    by (simp add: clip_discriminator_apply clip_by_value_def)
  show "length (data (clip_discriminator G mag st v)) = length (data (st v))"
    by (simp add: clip_discriminator_apply clip_by_value_def)
next
  fix v i
  assume "i < length (data (st v)) \<and> - mag \<le> data (st v) ! i \<and> data (st v) ! i \<le> mag"
  then show "data (clip_discriminator G mag st v) ! i = data (st v) ! i"
    by (simp add: clip_discriminator_apply clip_by_value_def)
qed

theorem clip_discriminator_idempotent_witness:
  "clip_discriminator mnist_gan (1 / 100)
       (clip_discriminator mnist_gan (1 / 100) (const_store [2] [5, 1 / 200]))
     = clip_discriminator mnist_gan (1 / 100) (const_store [2] [5, 1 / 200])
   \<and> data (clip_discriminator mnist_gan (1 / 100) (const_store [2] [5, 1 / 200]) 14) ! 1 = 1 / 200
   \<and> data (clip_discriminator mnist_gan (1 / 100) (const_store [2] [5, 1 / 200]) 14) ! 0 = 1 / 100"
proof -
  have h: "(1::nat) < length (data (const_store [2] [5, 1 / 200] 14))
      \<and> - (1 / 100) \<le> data (const_store [2] [5, 1 / 200] 14) ! 1
      \<and> data (const_store [2] [5, 1 / 200] 14) ! 1 \<le> 1 / 100"
    by (simp add: const_store_def)
  have e: "data (const_store [2] [5, 1 / 200] 14) ! 1 = 1 / 200"
    by (simp add: const_store_def)
  have c: "data (clip_discriminator mnist_gan (1 / 100) (const_store [2] [5, 1 / 200]) 14) ! 0 = 1 / 100"
    by (simp add: clip_discriminator_apply mnist_gan_vars clip_by_value_def const_store_def)
  show ?thesis
    using clip_discriminator_idempotent [of mnist_gan "1 / 100" "const_store [2] [5, 1 / 200]"] h e c
    by metis
qed

text \<open>
  C10. \<open>clip_discriminator\<close> leaves every generator variable unchanged: in a model built
  by the constructor, the value of each variable of the generator is the same before and
  after the clip, from every store and for every magnitude.
\<close>

theorem clip_discriminator_keeps_generator:
  assumes "GAN_init n g = Inr (G, g')"
    and "v \<in> set (generator_vars G)"
  shows "clip_discriminator G mag st v = st v"
proof -
  have "v \<notin> set (discriminator_vars G)"
    using assms(2) GAN_init_generator_vars [OF assms(1), of v]
      GAN_init_discriminator_vars [OF assms(1), of v] by simp
  then show ?thesis by (simp add: clip_discriminator_apply)
qed

theorem clip_discriminator_keeps_generator_witness:
  "(\<exists>g. GAN_init 100 [] = Inr (mnist_gan, g))
   \<and> 0 \<in> set (generator_vars mnist_gan)
   \<and> clip_discriminator mnist_gan (1 / 100) (const_store [2] [5, - 3]) 0 = const_store [2] [5, - 3] 0
   \<and> data (const_store [2] [5, - 3] 0) = [5, - 3]"
proof -
  obtain g where h1: "GAN_init 100 [] = Inr (mnist_gan, g)"
    using GAN_init_default by blast
  have h2: "0 \<in> set (generator_vars mnist_gan)"
    by (simp add: mnist_gan_vars)
  have h3: "data (const_store [2] [5, - 3] 0) = [5, - 3]"
    by (simp add: const_store_def)
  show ?thesis
    using h1 h2 h3 clip_discriminator_keeps_generator [OF h1 h2] by blast
qed

section \<open>Optimizer steps\<close>

lemma minimize_frame:
  "minimize W loss var_list opt st = Inr (opt', st') \<Longrightarrow> v \<notin> set var_list \<Longrightarrow> st' v = st v"
  by (auto simp add: minimize_def bindR_def split: sum.splits)

lemma run_opt_gen_frame:
  "run_opt_gen W E G smp batch s = Inr s' \<Longrightarrow> v \<notin> set (generator_vars G)
     \<Longrightarrow> variables s' v = variables s v"
  by (auto simp add: run_opt_gen_def bindR_def log_event_def split: sum.splits dest: minimize_frame)

lemma run_opt_disc_frame:
  "run_opt_disc W E G smp batch s = Inr s' \<Longrightarrow> v \<notin> set (discriminator_vars G)
     \<Longrightarrow> variables s' v = variables s v"
  by (auto simp add: run_opt_disc_def bindR_def log_event_def split: sum.splits dest: minimize_frame)

text \<open>
  C7. In a model built by the constructor, a generator optimizer step that succeeds
  changes no variable outside the generator's, and so leaves every discriminator variable
  unchanged; a discriminator optimizer step that succeeds changes no variable outside the
  discriminator's, and so leaves every generator variable unchanged.
\<close>

theorem optimizer_steps_frame:
  assumes "GAN_init n g = Inr (G, g')"
  shows "(run_opt_gen W E G smp batch s = Inr s' \<longrightarrow>
            (\<forall>v. v \<notin> set (generator_vars G) \<longrightarrow> variables s' v = variables s v)
          \<and> (\<forall>v \<in> set (discriminator_vars G). variables s' v = variables s v))
       \<and> (run_opt_disc W E G smp batch s = Inr s'' \<longrightarrow>
            (\<forall>v. v \<notin> set (discriminator_vars G) \<longrightarrow> variables s'' v = variables s v)
          \<and> (\<forall>v \<in> set (generator_vars G). variables s'' v = variables s v))"
proof (intro conjI impI allI ballI)
  fix v
  assume "run_opt_gen W E G smp batch s = Inr s'" and "v \<notin> set (generator_vars G)"
  then show "variables s' v = variables s v" by (rule run_opt_gen_frame)
next
  fix v
  assume run: "run_opt_gen W E G smp batch s = Inr s'" and "v \<in> set (discriminator_vars G)"
  then have "v \<notin> set (generator_vars G)"
    using GAN_init_disjoint [OF assms] by blast
  with run show "variables s' v = variables s v" by (rule run_opt_gen_frame)
next
  fix v
  assume "run_opt_disc W E G smp batch s = Inr s''" and "v \<notin> set (discriminator_vars G)"
  then show "variables s'' v = variables s v" by (rule run_opt_disc_frame)
next
  fix v
  assume run: "run_opt_disc W E G smp batch s = Inr s''" and "v \<in> set (generator_vars G)"
  then have "v \<notin> set (discriminator_vars G)"
    using GAN_init_disjoint [OF assms] by blast
  with run show "variables s'' v = variables s v" by (rule run_opt_disc_frame)
qed

lemma default_feed_ok: "check_feed (Samples_init 128 100) default_feed = Inr ()"
  by (simp add: check_feed_def Samples_init_def default_feed_def zero_tensor_def)

theorem optimizer_steps_frame_witness:
  "(\<exists>g. GAN_init 100 [] = Inr (mnist_gan, g))
   \<and> (\<exists>s1. run_opt_gen fixed_env id_engine mnist_gan (Samples_init 128 100) default_feed
               plain_session = Inr s1
        \<and> variables s1 14 = variables plain_session 14
        \<and> variables s1 0 \<noteq> variables plain_session 0)
   \<and> (\<exists>s2. run_opt_disc fixed_env id_engine mnist_gan (Samples_init 128 100) default_feed
               plain_session = Inr s2
        \<and> variables s2 0 = variables plain_session 0
        \<and> variables s2 14 \<noteq> variables plain_session 14)"
proof -
  obtain g where h: "GAN_init 100 [] = Inr (mnist_gan, g)"
    using GAN_init_default by blast
  obtain s1 where r1: "run_opt_gen fixed_env id_engine mnist_gan (Samples_init 128 100)
      default_feed plain_session = Inr s1" and c1: "variables s1 0 = zero_tensor [1]"
    by (simp add: run_opt_gen_def default_feed_ok minimize_def fixed_env_def bindR_def
        log_event_def mnist_gan_vars)
  obtain s2 where r2: "run_opt_disc fixed_env id_engine mnist_gan (Samples_init 128 100)
      default_feed plain_session = Inr s2" and c2: "variables s2 14 = zero_tensor [1]"
    by (simp add: run_opt_disc_def default_feed_ok minimize_def fixed_env_def bindR_def
        log_event_def mnist_gan_vars)
  have d: "variables plain_session 0 \<noteq> zero_tensor [1]" "variables plain_session 14 \<noteq> zero_tensor [1]"
    by (simp_all add: plain_session_def const_store_def zero_tensor_def)
  have m: "14 \<in> set (discriminator_vars mnist_gan)" "0 \<in> set (generator_vars mnist_gan)"
    by (simp_all add: mnist_gan_vars)
  have "variables s1 14 = variables plain_session 14" "variables s2 0 = variables plain_session 0"
    using optimizer_steps_frame [OF h, of fixed_env id_engine "Samples_init 128 100"
        default_feed plain_session s1 s2] r1 r2 m
    by blast+
  with h r1 r2 c1 c2 d show ?thesis by force
qed

section \<open>Generator output and objectives\<close>

lemma sigmoid_elem_range: "0 \<le> 1 / (1 + exp (- y)) \<and> 1 / (1 + exp (- y)) \<le> (1::real)"
proof -
  have pos: "0 < 1 + exp (- y)"
    by (rule add_pos_pos) simp_all
  then have "0 \<le> 1 / (1 + exp (- y))"
    by (intro divide_nonneg_nonneg) simp_all
  moreover have "1 / (1 + exp (- y)) \<le> 1"
    using pos by (subst divide_le_eq_1_pos) simp_all
  ultimately show ?thesis by simp
qed

lemma pair_generate:
  "generate id_engine pair_gan pair_store pair_noise
     = Inr \<lparr>shape = [2, 2], data = [1 / 2, 1 / 2, 1 / 2, 1 / 2]\<rparr>"
  by (simp add: generate_def pair_gan_def pair_store_def pair_noise_def bindR_def matmul_def
      tensor_add_def tensor_binop_def broadcast_shape_def pad_shape_def chunks_def relu_def
      sigmoid_def numeral_2_eq_2)

lemma pair_score_generated:
  "discriminate id_engine pair_gan pair_store \<lparr>shape = [2, 2], data = [1 / 2, 1 / 2, 1 / 2, 1 / 2]\<rparr>
     = Inr \<lparr>shape = [2, 1], data = [4, 4]\<rparr>"
  by (simp add: discriminate_def pair_gan_def pair_store_def bindR_def matmul_def tensor_add_def
      tensor_binop_def broadcast_shape_def pad_shape_def chunks_def numeral_2_eq_2)

lemma pair_score_real:
  "discriminate id_engine pair_gan pair_store pair_samples = Inr \<lparr>shape = [2, 1], data = [7, 7]\<rparr>"
  by (simp add: discriminate_def pair_gan_def pair_store_def pair_samples_def bindR_def matmul_def
      tensor_add_def tensor_binop_def broadcast_shape_def pad_shape_def chunks_def numeral_2_eq_2)

text \<open>
  C4. Whenever \<open>generate\<close> yields an image batch, every element of it lies in the closed
  interval from 0 to 1, whatever the noise, the model and the parameter values, because the
  output of the generator network goes through the sigmoid.
\<close>

theorem generate_range:
  assumes "generate E G st z = Inr t"
    and "x \<in> set (data t)"
  shows "0 \<le> x \<and> x \<le> 1"
proof -
  from assms(1) obtain u where "t = sigmoid u"
    by (auto simp add: generate_def bindR_def split: sum.splits)
  with assms(2) obtain y where "x = 1 / (1 + exp (- y))"
    by (auto simp add: sigmoid_def)
  then show ?thesis using sigmoid_elem_range [of y] by simp
qed

theorem generate_range_witness:
  "generate id_engine pair_gan pair_store pair_noise
     = Inr \<lparr>shape = [2, 2], data = [1 / 2, 1 / 2, 1 / 2, 1 / 2]\<rparr>
   \<and> 1 / 2 \<in> set (data \<lparr>shape = [2, 2], data = [1 / 2, 1 / 2, 1 / 2, 1 / 2 :: real]\<rparr>)
   \<and> 0 \<le> (1 / 2 :: real) \<and> (1 / 2 :: real) \<le> 1"
proof -
  have h: "1 / 2 \<in> set (data \<lparr>shape = [2, 2], data = [1 / 2, 1 / 2, 1 / 2, 1 / 2 :: real]\<rparr>)"
    by simp
  show ?thesis
    using pair_generate h generate_range [OF pair_generate h] by simp
qed

lemma sum_list_nth: "sum_list xs = (\<Sum>i<length xs. xs ! i)" for xs :: "real list"
  by (simp add: sum_list_sum_nth atLeast0LessThan)

text \<open>
  C5. When the generator and the discriminator both yield a result, \<open>generator_objective\<close>
  is the negation of the mean, over the batch, of the discriminator's scores of the
  generated images.
\<close>

theorem generator_objective_value:
  assumes "generate E G st z = Inr gen_out"
    and "discriminate E G st gen_out = Inr score"
  shows "generator_objective E G st z
           = Inr (- batch_mean (\<lambda>i. data score ! i) (length (data score)))"
  using assms
  by (simp add: generator_objective_def bindR_def reduce_mean_def batch_mean_def sum_list_nth)

theorem generator_objective_value_witness:
  "generate id_engine pair_gan pair_store pair_noise
     = Inr \<lparr>shape = [2, 2], data = [1 / 2, 1 / 2, 1 / 2, 1 / 2]\<rparr>
   \<and> discriminate id_engine pair_gan pair_store \<lparr>shape = [2, 2], data = [1 / 2, 1 / 2, 1 / 2, 1 / 2]\<rparr>
     = Inr \<lparr>shape = [2, 1], data = [4, 4]\<rparr>
   \<and> generator_objective id_engine pair_gan pair_store pair_noise = Inr (- 4)"
  using pair_generate pair_score_generated
    generator_objective_value [OF pair_generate pair_score_generated]
  by (simp add: batch_mean_def numeral_2_eq_2 lessThan_Suc)

section \<open>Broadcasting of equal shapes\<close>

lemma concat_chunks: "concat (chunks c n ys) = take (n * c) ys"
proof (induction n)
  case 0
  show ?case by (simp add: chunks_def)
next
  case (Suc n)
  have "take (Suc n * c) ys = take (n * c + c) ys"
    by (simp add: add.commute)
  also have "\<dots> = take (n * c) ys @ take c (drop (n * c) ys)"
    by (rule take_add)
  finally show ?case using Suc by (simp add: chunks_def)
qed

lemma expand_same: "length xs = prod_list s \<Longrightarrow> expand s s xs = xs"
proof (induction s arbitrary: xs)
  case Nil
  show ?case by simp
next
  case (Cons d ds)
  have "map (expand ds ds) (chunks (prod_list ds) d xs) = chunks (prod_list ds) d xs"
  proof (rule map_idI)
    fix c assume "c \<in> set (chunks (prod_list ds) d xs)"
    then obtain i where i: "i < d" and c: "c = take (prod_list ds) (drop (i * prod_list ds) xs)"
      by (auto simp add: chunks_def)
    have le: "i * prod_list ds + prod_list ds \<le> d * prod_list ds"
      using i mult_le_mono1 [of "Suc i" d "prod_list ds"] by simp
    have "length c = min (prod_list ds) (d * prod_list ds - i * prod_list ds)"
      using Cons.prems c by simp
    with le have "length c = prod_list ds"
      by linarith
    then show "expand ds ds c = c" by (rule Cons.IH)
  qed
  then have "expand (d # ds) (d # ds) xs = concat (chunks (prod_list ds) d xs)"
    by simp
  also have "\<dots> = take (d * prod_list ds) xs"
    by (rule concat_chunks)
  also have "\<dots> = xs"
    using Cons.prems by simp
  finally show ?case .
qed

lemma broadcast_dims_same: "broadcast_dims s s = Some s"
  by (induction s) simp_all

lemma tensor_binop_same_shape:
  assumes "shape a = shape b" "well_shaped a" "well_shaped b"
  shows "tensor_binop f a b = Inr \<lparr>shape = shape a, data = map2 f (data a) (data b)\<rparr>"
  using assms
  by (simp add: tensor_binop_def broadcast_shape_def broadcast_dims_same pad_shape_def
      expand_same well_shaped_def)

text \<open>
  C1. When the generator yields a batch and the discriminator yields scores of one shape
  for the generated and for the real images, each with as many elements as its shape says,
  \<open>discriminator_objective\<close> is the mean over the batch of the score of the generated
  image minus the score of the real image, in that order.
\<close>

theorem discriminator_objective_value:
  assumes "generate E G st z = Inr gen_samples"
    and "discriminate E G st gen_samples = Inr gen_score"
    and "discriminate E G st samples = Inr real_score"
    and "shape gen_score = shape real_score"
    and "well_shaped gen_score" and "well_shaped real_score"
  shows "discriminator_objective E G st z samples
           = Inr (batch_mean (\<lambda>i. data gen_score ! i - data real_score ! i)
                    (length (data gen_score)))"
proof -
  have len: "length (data real_score) = length (data gen_score)"
    using assms(4-6) by (simp add: well_shaped_def)
  have sub: "tensor_sub gen_score real_score
      = Inr \<lparr>shape = shape gen_score,
             data = map2 (\<lambda>x y. x - y) (data gen_score) (data real_score)\<rparr>"
    using assms(4-6) by (simp add: tensor_sub_def tensor_binop_same_shape)
  have "sum_list (map2 (\<lambda>x y. x - y) (data gen_score) (data real_score))
      = (\<Sum>i<length (data gen_score). data gen_score ! i - data real_score ! i)"
    using len by (simp add: sum_list_nth)
  then show ?thesis
    using assms(1-3) sub len
    by (simp add: discriminator_objective_def bindR_def reduce_mean_def batch_mean_def)
qed

theorem discriminator_objective_value_witness:
  "discriminate id_engine pair_gan pair_store \<lparr>shape = [2, 2], data = [1 / 2, 1 / 2, 1 / 2, 1 / 2]\<rparr>
     = Inr \<lparr>shape = [2, 1], data = [4, 4]\<rparr>
   \<and> discriminate id_engine pair_gan pair_store pair_samples = Inr \<lparr>shape = [2, 1], data = [7, 7]\<rparr>
   \<and> discriminator_objective id_engine pair_gan pair_store pair_noise pair_samples = Inr (- 3)"
proof -
  have s: "shape \<lparr>shape = [2, 1], data = [4, 4 :: real]\<rparr> = shape \<lparr>shape = [2, 1], data = [7, 7 :: real]\<rparr>"
    by simp
  have w1: "well_shaped \<lparr>shape = [2, 1], data = [4, 4]\<rparr>"
    by (simp add: well_shaped_def)
  have w2: "well_shaped \<lparr>shape = [2, 1], data = [7, 7]\<rparr>"
    by (simp add: well_shaped_def)
  show ?thesis
    using pair_score_generated pair_score_real
      discriminator_objective_value [OF pair_generate pair_score_generated pair_score_real s w1 w2]
    by (simp add: batch_mean_def numeral_2_eq_2 lessThan_Suc)
qed

section \<open>The calls of one training iteration\<close>

lemma sample_batch_log:
  "sample_batch W smp s = Inr (batch, s1)
     \<Longrightarrow> events s1 = events s @ [SampleBatch] \<and> stdout s1 = stdout s"
  by (auto simp add: sample_batch_def bindR_def log_event_def split: sum.splits)

lemma run_disc_obj_log:
  "run_disc_obj E G smp batch s = Inr (l, s1)
     \<Longrightarrow> events s1 = events s @ [RunDiscObj] \<and> stdout s1 = stdout s"
  by (auto simp add: run_disc_obj_def bindR_def log_event_def split: sum.splits)

lemma run_gen_obj_log:
  "run_gen_obj E G smp batch s = Inr (l, s1)
     \<Longrightarrow> events s1 = events s @ [RunGenObj] \<and> stdout s1 = stdout s"
  by (auto simp add: run_gen_obj_def bindR_def log_event_def split: sum.splits)

lemma run_opt_disc_log:
  "run_opt_disc W E G smp batch s = Inr s1
     \<Longrightarrow> events s1 = events s @ [RunOptDisc] \<and> stdout s1 = stdout s"
  by (auto simp add: run_opt_disc_def bindR_def log_event_def split: sum.splits)

lemma run_opt_gen_log:
  "run_opt_gen W E G smp batch s = Inr s1
     \<Longrightarrow> events s1 = events s @ [RunOptGen] \<and> stdout s1 = stdout s"
  by (auto simp add: run_opt_gen_def bindR_def log_event_def split: sum.splits)

lemma run_clip_disc_log:
  "events (run_clip_disc G s) = events s @ [RunClipDisc] \<and> stdout (run_clip_disc G s) = stdout s"
  by (simp add: run_clip_disc_def log_event_def)

lemma disc_steps_log:
  "disc_steps n W E G smp losses s = Inr (losses', s')
     \<Longrightarrow> events s' = events s @ concat (replicate n disc_round) \<and> stdout s' = stdout s"
proof (induction n arbitrary: losses s)
  case 0
  then show ?case by simp
next
  case (Suc n)
  from Suc.prems obtain batch s1 l s2 s3 where
      a: "sample_batch W smp s = Inr (batch, s1)"
    and b: "run_disc_obj E G smp batch s1 = Inr (l, s2)"
    and c: "run_opt_disc W E G smp batch s2 = Inr s3"
    and d: "disc_steps n W E G smp (losses @ [l]) (run_clip_disc G s3) = Inr (losses', s')"
    by (auto simp add: bindR_def split: sum.splits)
  have "events (run_clip_disc G s3) = events s @ disc_round
      \<and> stdout (run_clip_disc G s3) = stdout s"
    using sample_batch_log [OF a] run_disc_obj_log [OF b] run_opt_disc_log [OF c]
    by (simp add: run_clip_disc_log disc_round_def)
  with Suc.IH [OF d] show ?case by simp
qed

lemma train_iteration_log:
  assumes "train_iteration W E G smp s = Inr s'"
  shows "events s' = events s @ concat (replicate 30 disc_round) @ gen_round"
    and "length (stdout s') = Suc (length (stdout s))"
    and "checkpoint s' = Some (variables s')"
proof -
  from assms obtain losses s1 batch s2 loss s3 s4 where
      a: "disc_steps 30 W E G smp [] s = Inr (losses, s1)"
    and b: "sample_batch W smp s1 = Inr (batch, s2)"
    and c: "run_gen_obj E G smp batch s2 = Inr (loss, s3)"
    and d: "run_opt_gen W E G smp batch
              (print_losses (sum_list losses / real (length losses)) loss s3) = Inr s4"
    and e: "s' = saver_save s4"
    by (auto simp add: train_iteration_def bindR_def split: sum.splits)
  show "events s' = events s @ concat (replicate 30 disc_round) @ gen_round"
    using disc_steps_log [OF a] sample_batch_log [OF b] run_gen_obj_log [OF c]
      run_opt_gen_log [OF d] e
    by (simp add: print_losses_def saver_save_def log_event_def gen_round_def)
  show "length (stdout s') = Suc (length (stdout s))"
    using disc_steps_log [OF a] sample_batch_log [OF b] run_gen_obj_log [OF c]
      run_opt_gen_log [OF d] e
    by (simp add: print_losses_def saver_save_def log_event_def)
  show "checkpoint s' = Some (variables s')"
    using e by (simp add: saver_save_def log_event_def)
qed

subsection \<open>Properties of the sequence of calls\<close>

lemma rounds_count:
  "count_list (concat (replicate n disc_round) @ gen_round) RunOptDisc = n"
  "count_list (concat (replicate n disc_round) @ gen_round) RunClipDisc = n"
  "count_list (concat (replicate n disc_round) @ gen_round) RunOptGen = 1"
  by (induction n) (simp_all add: disc_round_def gen_round_def)

lemma rounds_clip_follows:
  "each_followed_by RunOptDisc RunClipDisc (concat (replicate n disc_round) @ gen_round)"
  by (induction n) (simp_all add: disc_round_def gen_round_def)

lemma rounds_from_gen_step:
  "dropWhile (\<lambda>e. e \<noteq> RunOptGen) (concat (replicate n disc_round) @ gen_round)
     = [RunOptGen, SaveCheckpoint]"
  by (induction n) (simp_all add: disc_round_def gen_round_def)

lemma rounds_from_print:
  "dropWhile (\<lambda>e. e \<noteq> PrintLosses) (concat (replicate n disc_round) @ gen_round)
     = [PrintLosses, RunOptGen, SaveCheckpoint]"
  by (induction n) (simp_all add: disc_round_def gen_round_def)

lemma rounds_from_save:
  "dropWhile (\<lambda>e. e \<noteq> SaveCheckpoint) (concat (replicate n disc_round) @ gen_round)
     = [SaveCheckpoint]"
  by (induction n) (simp_all add: disc_round_def gen_round_def)

lemma rounds_set: "set (concat (replicate n disc_round)) \<subseteq> set disc_round"
  by (induction n) simp_all

subsection \<open>The effect of the calls on the session\<close>

lemma sample_batch_effect:
  "sample_batch W smp s = Inr (batch, s1)
     \<Longrightarrow> sample_feed_dict W smp (draws s) = Inr (batch, draws s1) \<and> keeps s s1"
  by (auto simp add: sample_batch_def bindR_def log_event_def keeps_def split: sum.splits)

lemma run_disc_obj_effect:
  "run_disc_obj E G smp batch s = Inr (l, s1)
     \<Longrightarrow> discriminator_objective E G (variables s) (noise batch) (images batch) = Inr l
       \<and> keeps s s1 \<and> draws s1 = draws s"
  by (auto simp add: run_disc_obj_def bindR_def log_event_def keeps_def split: sum.splits)

lemma run_gen_obj_effect:
  "run_gen_obj E G smp batch s = Inr (l, s1)
     \<Longrightarrow> generator_objective E G (variables s) (noise batch) = Inr l
       \<and> keeps s s1 \<and> draws s1 = draws s"
  by (auto simp add: run_gen_obj_def bindR_def log_event_def keeps_def split: sum.splits)

lemma run_opt_disc_effect:
  "run_opt_disc W E G smp batch s = Inr s1
     \<Longrightarrow> minimize W (\<lambda>st. discriminator_objective E G st (noise batch) (images batch))
           (discriminator_vars G) (disc_adam s) (variables s) = Inr (disc_adam s1, variables s1)
       \<and> gen_adam s1 = gen_adam s \<and> checkpoint s1 = checkpoint s \<and> stdout s1 = stdout s
       \<and> draws s1 = draws s"
  by (auto simp add: run_opt_disc_def bindR_def log_event_def split: sum.splits)

lemma run_opt_gen_effect:
  "run_opt_gen W E G smp batch s = Inr s1
     \<Longrightarrow> minimize W (\<lambda>st. generator_objective E G st (noise batch))
           (generator_vars G) (gen_adam s) (variables s) = Inr (gen_adam s1, variables s1)
       \<and> disc_adam s1 = disc_adam s \<and> checkpoint s1 = checkpoint s \<and> stdout s1 = stdout s
       \<and> draws s1 = draws s"
  by (auto simp add: run_opt_gen_def bindR_def log_event_def split: sum.splits)

lemma disc_round_effect:
  assumes a: "sample_batch W smp s = Inr (batch, s1)"
    and b: "run_disc_obj E G smp batch s1 = Inr (l, s2)"
    and c: "run_opt_disc W E G smp batch s2 = Inr s3"
  shows "disc_update W E G smp s l (run_clip_disc G s3)"
  unfolding disc_update_def
  using sample_batch_effect [OF a] run_disc_obj_effect [OF b] run_opt_disc_effect [OF c]
  by (intro exI [of _ batch] exI [of _ "disc_adam s3"] exI [of _ "variables s3"])
    (simp add: keeps_def run_clip_disc_def log_event_def)

lemma disc_steps_effect:
  "disc_steps n W E G smp losses s = Inr (losses', s')
     \<Longrightarrow> \<exists>ls. losses' = losses @ ls \<and> length ls = n \<and> disc_updates W E G smp s ls s'"
proof (induction n arbitrary: losses s)
  case 0
  then show ?case by (simp add: keeps_def)
next
  case (Suc n)
  from Suc.prems obtain batch s1 l s2 s3 where
      a: "sample_batch W smp s = Inr (batch, s1)"
    and b: "run_disc_obj E G smp batch s1 = Inr (l, s2)"
    and c: "run_opt_disc W E G smp batch s2 = Inr s3"
    and d: "disc_steps n W E G smp (losses @ [l]) (run_clip_disc G s3) = Inr (losses', s')"
    by (auto simp add: bindR_def split: sum.splits)
  from Suc.IH [OF d] obtain ls where
      ls: "losses' = (losses @ [l]) @ ls" "length ls = n"
        "disc_updates W E G smp (run_clip_disc G s3) ls s'"
    by blast
  have "disc_updates W E G smp s (l # ls) s'"
    using disc_round_effect [OF a b c] ls(3) by auto
  with ls(1,2) show ?case
    by (intro exI [of _ "l # ls"]) simp
qed

lemma disc_update_clipped:
  assumes "disc_update W E G smp s l t"
    and "v \<in> set (discriminator_vars G)" and "x \<in> set (data (variables t v))"
  shows "- (1 / 100) \<le> x \<and> x \<le> 1 / 100"
proof -
  from assms(1) obtain st where "variables t = clip_discriminator G (1 / 100) st"
    by (auto simp add: disc_update_def)
  with assms(2,3) obtain y where "x = max (min y (1 / 100)) (- (1 / 100))"
    by (auto simp add: clip_discriminator_apply clip_by_value_def)
  then show ?thesis
    using clip_elem_bounds [of "1 / 100" y] by simp
qed

lemma disc_updates_clipped:
  assumes "disc_updates W E G smp s ls t" and "ls \<noteq> []"
    and "v \<in> set (discriminator_vars G)" and "x \<in> set (data (variables t v))"
  shows "- (1 / 100) \<le> x \<and> x \<le> 1 / 100"
  using assms
proof (induction ls arbitrary: s)
  case Nil
  then show ?case by simp
next
  case (Cons l ls)
  from Cons.prems(1) obtain m where
      m: "disc_update W E G smp s l m" and r: "disc_updates W E G smp m ls t"
    by auto
  show ?case
  proof (cases "ls = []")
    case True
    with r have "variables t = variables m"
      by (simp add: keeps_def)
    then show ?thesis
      using disc_update_clipped [OF m Cons.prems(3)] Cons.prems(4) by simp
  next
    case False
    then show ?thesis
      using Cons.IH [OF r] Cons.prems(3,4) by simp
  qed
qed

lemma train_iteration_effect:
  assumes "train_iteration W E G smp s = Inr s'"
  shows "\<exists>losses s1 batch loss.
           length losses = 30
         \<and> disc_updates W E G smp s losses s1
         \<and> sample_feed_dict W smp (draws s1) = Inr (batch, draws s')
         \<and> generator_objective E G (variables s1) (noise batch) = Inr loss
         \<and> stdout s' = stdout s1 @ [(sum_list losses / 30, loss)]
         \<and> minimize W (\<lambda>st. generator_objective E G st (noise batch))
              (generator_vars G) (gen_adam s1) (variables s1) = Inr (gen_adam s', variables s')
         \<and> disc_adam s' = disc_adam s1
         \<and> checkpoint s' = Some (variables s')"
proof -
  from assms obtain losses s1 batch s2 loss s3 s4 where
      a: "disc_steps 30 W E G smp [] s = Inr (losses, s1)"
    and b: "sample_batch W smp s1 = Inr (batch, s2)"
    and c: "run_gen_obj E G smp batch s2 = Inr (loss, s3)"
    and d: "run_opt_gen W E G smp batch
              (print_losses (sum_list losses / real (length losses)) loss s3) = Inr s4"
    and e: "s' = saver_save s4"
    by (auto simp add: train_iteration_def bindR_def split: sum.splits)
  from disc_steps_effect [OF a] have
      l: "length losses = 30" and u: "disc_updates W E G smp s losses s1"
    by auto
  show ?thesis
    using l u sample_batch_effect [OF b] run_gen_obj_effect [OF c] run_opt_gen_effect [OF d] e
    by (intro exI [of _ losses] exI [of _ s1] exI [of _ batch] exI [of _ loss])
      (simp add: keeps_def print_losses_def saver_save_def log_event_def)
qed

lemma disc_updates_keeps:
  "disc_updates W E G smp s ls t
     \<Longrightarrow> stdout t = stdout s \<and> checkpoint t = checkpoint s \<and> gen_adam t = gen_adam s"
proof (induction ls arbitrary: s)
  case Nil
  then show ?case by (simp add: keeps_def)
next
  case (Cons l ls)
  from Cons.prems obtain m where
      m: "disc_update W E G smp s l m" and r: "disc_updates W E G smp m ls t"
    by auto
  from m have "stdout m = stdout s \<and> checkpoint m = checkpoint s \<and> gen_adam m = gen_adam s"
    by (auto simp add: disc_update_def)
  with Cons.IH [OF r] show ?case by simp
qed

subsection \<open>A run of the loop body\<close>

lemma white_sample: "sample_feed_dict shift_env small_samples n = Inr (white_feed, Suc n)"
  by (simp add: sample_feed_dict_def shift_env_def small_samples_def Samples_init_def
      zero_tensor_def reshape_def bindR_def white_feed_def)

lemma white_check: "check_feed small_samples white_feed = Inr ()"
  by (simp add: check_feed_def small_samples_def Samples_init_def white_feed_def zero_tensor_def)

lemma level_generate:
  "generate id_engine small_gan (level_store 0 b) (noise white_feed)
     = Inr \<lparr>shape = [1, 28, 28, 1], data = replicate 784 (1 / 2)\<rparr>"
  by (simp add: generate_def small_gan_def level_store_def white_feed_def bindR_def matmul_def
      zero_tensor_def map_replicate_const tensor_add_def tensor_binop_same_shape well_shaped_def
      relu_def reshape_def sigmoid_def)

lemma sum_list_const: "(\<And>x. x \<in> set xs \<Longrightarrow> f x = c) \<Longrightarrow> sum_list (map f xs) = real (length xs) * c"
  by (induction xs) (simp_all add: algebra_simps)

lemma level_discriminate:
  "discriminate id_engine small_gan (level_store a b) \<lparr>shape = [1, 28, 28, 1], data = replicate 784 c\<rparr>
     = Inr \<lparr>shape = [1, 1], data = [784 * (c * b) + b]\<rparr>"
proof -
  have "(\<Sum>l\<leftarrow>[0..<784]. replicate 784 c ! l * replicate 784 b ! l) = real (length [0..<784]) * (c * b)"
    by (rule sum_list_const) simp
  then show ?thesis
    by (simp add: discriminate_def small_gan_def level_store_def bindR_def matmul_def
        tensor_add_def tensor_binop_same_shape well_shaped_def reshape_def)
qed

lemma level_disc_obj:
  "discriminator_objective id_engine small_gan (level_store 0 b) (noise white_feed) (images white_feed)
     = Inr (- (392 * b))"
proof -
  have "images white_feed = \<lparr>shape = [1, 28, 28, 1], data = replicate 784 1\<rparr>"
    by (simp add: white_feed_def)
  then show ?thesis
    unfolding discriminator_objective_def
    by (simp only: level_generate level_discriminate bindR_def sum.case)
      (simp add: tensor_sub_def tensor_binop_same_shape well_shaped_def reduce_mean_def)
qed

lemma level_gen_obj:
  "generator_objective id_engine small_gan (level_store 0 b) (noise white_feed) = Inr (- (393 * b))"
  unfolding generator_objective_def
  by (simp only: level_generate level_discriminate bindR_def sum.case)
    (simp add: reduce_mean_def)

lemma small_vars:
  "generator_vars small_gan = [0, 1]" "discriminator_vars small_gan = [2, 3]"
  by (simp_all add: small_gan_def generator_vars_def discriminator_vars_def network_vars_concat)

lemma shift_minimize:
  "loss st = Inr l \<Longrightarrow> minimize shift_env loss var_list opt st
     = Inr (Suc opt, \<lambda>v. if v \<in> set var_list then (st v)\<lparr>data := map (\<lambda>x. x + 1) (data (st v))\<rparr>
                          else st v)"
  by (simp add: minimize_def shift_env_def bindR_def)

lemma level_disc_step:
  assumes "0 \<le> b"
  shows "clip_discriminator small_gan (1 / 100)
           (\<lambda>v. if v \<in> set (discriminator_vars small_gan)
                then (level_store a b v)\<lparr>data := map (\<lambda>x. x + 1) (data (level_store a b v))\<rparr>
                else level_store a b v)
         = level_store a (1 / 100)"
proof
  fix v
  have c: "max (min (b + 1) (1 / 100)) (- (1 / 100)) = 1 / 100"
    using assms by (simp add: max_def min_def)
  show "clip_discriminator small_gan (1 / 100)
           (\<lambda>v. if v \<in> set (discriminator_vars small_gan)
                then (level_store a b v)\<lparr>data := map (\<lambda>x. x + 1) (data (level_store a b v))\<rparr>
                else level_store a b v) v
         = level_store a (1 / 100) v"
    by (simp add: clip_discriminator_apply small_vars level_store_def clip_by_value_def c)
qed

lemma level_gen_step:
  "(\<lambda>v. if v \<in> set (generator_vars small_gan)
        then (level_store 0 b v)\<lparr>data := map (\<lambda>x. x + 1) (data (level_store 0 b v))\<rparr>
        else level_store 0 b v)
     = level_store 1 b"
  by (rule ext) (simp add: small_vars level_store_def)

lemma level_round:
  assumes "0 \<le> b"
  shows "disc_steps (Suc n) shift_env id_engine small_gan small_samples losses
       \<lparr>variables = level_store 0 b, gen_adam = a, disc_adam = k, checkpoint = c,
        draws = d, stdout = out, events = ev\<rparr>
   = disc_steps n shift_env id_engine small_gan small_samples (losses @ [- (392 * b)])
       \<lparr>variables = level_store 0 (1 / 100), gen_adam = a, disc_adam = Suc k, checkpoint = c,
        draws = Suc d, stdout = out, events = ev @ disc_round\<rparr>"
proof -
  have "minimize shift_env
          (\<lambda>st. discriminator_objective id_engine small_gan st (noise white_feed) (images white_feed))
          (discriminator_vars small_gan) opt (level_store 0 b)
        = Inr (Suc opt, \<lambda>v. if v \<in> set (discriminator_vars small_gan)
                then (level_store 0 b v)\<lparr>data := map (\<lambda>x. x + 1) (data (level_store 0 b v))\<rparr>
                else level_store 0 b v)" for opt
    by (rule shift_minimize) (rule level_disc_obj)
  then show ?thesis
    by (simp add: sample_batch_def white_sample run_disc_obj_def white_check level_disc_obj
        run_opt_disc_def run_clip_disc_def level_disc_step [OF assms] log_event_def bindR_def
        disc_round_def)
qed

lemma level_rounds:
  "disc_steps n shift_env id_engine small_gan small_samples losses
       \<lparr>variables = level_store 0 (1 / 100), gen_adam = a, disc_adam = k, checkpoint = c,
        draws = d, stdout = out, events = ev\<rparr>
   = Inr (losses @ replicate n (- (98 / 25)),
       \<lparr>variables = level_store 0 (1 / 100), gen_adam = a, disc_adam = k + n, checkpoint = c,
        draws = d + n, stdout = out, events = ev @ concat (replicate n disc_round)\<rparr>)"
proof (induction n arbitrary: losses k d ev)
  case 0
  show ?case by simp
next
  case (Suc n)
  have r: "disc_steps (Suc n) shift_env id_engine small_gan small_samples losses
       \<lparr>variables = level_store 0 (1 / 100), gen_adam = a, disc_adam = k, checkpoint = c,
        draws = d, stdout = out, events = ev\<rparr>
   = disc_steps n shift_env id_engine small_gan small_samples (losses @ [- (392 * (1 / 100))])
       \<lparr>variables = level_store 0 (1 / 100), gen_adam = a, disc_adam = Suc k, checkpoint = c,
        draws = Suc d, stdout = out, events = ev @ disc_round\<rparr>"
    by (rule level_round) simp
  show ?case
    by (simp only: r Suc.IH) (simp add: replicate_append_same)
qed

lemma first_disc_phase:
  "disc_steps 30 shift_env id_engine small_gan small_samples [] first_session
     = Inr (0 # replicate 29 (- (98 / 25)),
         \<lparr>variables = level_store 0 (1 / 100), gen_adam = 0, disc_adam = 30, checkpoint = None,
          draws = 30, stdout = [], events = concat (replicate 30 disc_round)\<rparr>)"
proof -
  have "disc_steps 30 shift_env id_engine small_gan small_samples [] first_session
      = disc_steps (Suc 29) shift_env id_engine small_gan small_samples []
       \<lparr>variables = level_store 0 0, gen_adam = 0, disc_adam = 0, checkpoint = None,
        draws = 0, stdout = [], events = []\<rparr>"
    by (simp add: first_session_def)
  also have "\<dots> = disc_steps 29 shift_env id_engine small_gan small_samples ([] @ [- (392 * 0)])
       \<lparr>variables = level_store 0 (1 / 100), gen_adam = 0, disc_adam = Suc 0, checkpoint = None,
        draws = Suc 0, stdout = [], events = [] @ disc_round\<rparr>"
    by (rule level_round) simp
  also have "\<dots> = Inr (([] @ [- (392 * 0)]) @ replicate 29 (- (98 / 25)),
       \<lparr>variables = level_store 0 (1 / 100), gen_adam = 0, disc_adam = Suc 0 + 29,
        checkpoint = None, draws = Suc 0 + 29, stdout = [],
        events = ([] @ disc_round) @ concat (replicate 29 disc_round)\<rparr>)"
    by (rule level_rounds)
  also have "\<dots> = Inr (0 # replicate 29 (- (98 / 25)),
         \<lparr>variables = level_store 0 (1 / 100), gen_adam = 0, disc_adam = 30, checkpoint = None,
          draws = 30, stdout = [], events = concat (replicate 30 disc_round)\<rparr>)"
  proof -
    have "concat (replicate 30 disc_round) = disc_round @ concat (replicate 29 disc_round)"
      by (simp add: eval_nat_numeral)
    then show ?thesis by simp
  qed
  finally show ?thesis .
qed

lemma first_iteration:
  "train_iteration shift_env id_engine small_gan small_samples first_session
     = Inr first_session_after"
proof -
  have m: "minimize shift_env
          (\<lambda>st. generator_objective id_engine small_gan st (noise white_feed))
          (generator_vars small_gan) opt (level_store 0 (1 / 100))
        = Inr (Suc opt, \<lambda>v. if v \<in> set (generator_vars small_gan)
            then (level_store 0 (1 / 100) v)\<lparr>data := map (\<lambda>x. x + 1) (data (level_store 0 (1 / 100) v))\<rparr>
            else level_store 0 (1 / 100) v)" for opt
    by (rule shift_minimize) (rule level_gen_obj)
  have "minimize shift_env
          (\<lambda>st. generator_objective id_engine small_gan st (noise white_feed))
          (generator_vars small_gan) opt (level_store 0 (1 / 100))
        = Inr (Suc opt, level_store 1 (1 / 100))" for opt
    by (simp only: m level_gen_step)
  moreover have "sum_list (replicate 29 (- (98 / 25) :: real)) = - (2842 / 25)"
    by (simp add: sum_list_replicate)
  ultimately show ?thesis
    unfolding train_iteration_def
    by (simp only: first_disc_phase)
      (simp add: sample_batch_def white_sample run_gen_obj_def white_check level_gen_obj
        run_opt_gen_def print_losses_def saver_save_def log_event_def
        bindR_def gen_round_def first_session_after_def)
qed

text \<open>
  C3. Every iteration of the training loop that completes makes, after the calls made
  before it, exactly these calls: thirty rounds of the discriminator phase (sample a batch,
  evaluate the discriminator loss, apply the discriminator gradient step, apply the weight
  clip), then the generator phase. So there are exactly thirty discriminator steps, the
  call right after each of them is the weight clip, and there is exactly one generator
  step, with no discriminator step after it. On the session, the iteration is a chain of
  exactly thirty discriminator updates, each of them a gradient step of the discriminator's
  optimizer on the discriminator's variables with the weight clip applied to its result,
  so that every discriminator parameter lies between -0.01 and 0.01 when the chain ends;
  and from the end of the chain, one generator update leads to the final session.
\<close>

theorem train_iteration_schedule:
  assumes "train_iteration W E G smp s = Inr s'"
  shows "\<exists>tr losses s1.
           events s' = events s @ tr
         \<and> tr = concat (replicate 30 disc_round) @ gen_round
         \<and> count_list tr RunOptDisc = 30
         \<and> count_list tr RunClipDisc = 30
         \<and> each_followed_by RunOptDisc RunClipDisc tr
         \<and> count_list tr RunOptGen = 1
         \<and> precedes RunOptDisc RunOptGen tr
         \<and> \<not> precedes RunOptGen RunOptDisc tr
         \<and> length losses = 30
         \<and> disc_updates W E G smp s losses s1
         \<and> (\<forall>v \<in> set (discriminator_vars G). \<forall>x \<in> set (data (variables s1 v)).
               - (1 / 100) \<le> x \<and> x \<le> 1 / 100)
         \<and> gen_update W E G smp s1 s'"
proof -
  let ?tr = "concat (replicate 30 disc_round) @ gen_round"
  from train_iteration_effect [OF assms] obtain losses s1 batch loss where
      l: "length losses = 30"
    and u: "disc_updates W E G smp s losses s1"
    and b: "sample_feed_dict W smp (draws s1) = Inr (batch, draws s')"
    and m: "minimize W (\<lambda>st. generator_objective E G st (noise batch))
              (generator_vars G) (gen_adam s1) (variables s1) = Inr (gen_adam s', variables s')"
    and d: "disc_adam s' = disc_adam s1"
    by blast
  have g: "gen_update W E G smp s1 s'"
    unfolding gen_update_def using b m d by blast
  have ne: "losses \<noteq> []"
    using l by auto
  have c: "\<forall>v \<in> set (discriminator_vars G). \<forall>x \<in> set (data (variables s1 v)).
             - (1 / 100) \<le> x \<and> x \<le> 1 / 100"
    using disc_updates_clipped [OF u ne] by blast
  have "dropWhile (\<lambda>e. e \<noteq> RunOptDisc) ?tr
      = [RunOptDisc, RunClipDisc] @ concat (replicate 29 disc_round) @ gen_round"
    by (simp add: disc_round_def eval_nat_numeral)
  then have p1: "precedes RunOptDisc RunOptGen ?tr"
    by (simp add: precedes_def gen_round_def)
  have p2: "\<not> precedes RunOptGen RunOptDisc ?tr"
    by (simp add: precedes_def rounds_from_gen_step)
  have n: "count_list ?tr RunOptDisc = 30" "count_list ?tr RunClipDisc = 30"
      "count_list ?tr RunOptGen = 1"
    by (rule rounds_count)+
  have f: "each_followed_by RunOptDisc RunClipDisc ?tr"
    by (rule rounds_clip_follows)
  have e: "events s' = events s @ ?tr"
    by (rule train_iteration_log(1) [OF assms])
  show ?thesis
    using e n f p1 p2 l u c g by blast
qed

theorem train_iteration_schedule_witness:
  "train_iteration shift_env id_engine small_gan small_samples first_session
     = Inr first_session_after
   \<and> events first_session = []
   \<and> events first_session_after = concat (replicate 30 disc_round) @ gen_round
   \<and> count_list (events first_session_after) RunOptDisc = 30
   \<and> each_followed_by RunOptDisc RunClipDisc (events first_session_after)
   \<and> count_list (events first_session_after) RunOptGen = 1
   \<and> variables first_session = level_store 0 0
   \<and> variables first_session_after = level_store 1 (1 / 100)
   \<and> variables first_session_after 3 = \<lparr>shape = [1, 1], data = [1 / 100]\<rparr>
   \<and> disc_adam first_session_after = 30
   \<and> gen_adam first_session_after = 1"
proof -
  have e: "events first_session = []" "variables first_session = level_store 0 0"
    by (simp_all add: first_session_def)
  have a: "variables first_session_after = level_store 1 (1 / 100)"
      "variables first_session_after 3 = \<lparr>shape = [1, 1], data = [1 / 100]\<rparr>"
      "disc_adam first_session_after = 30" "gen_adam first_session_after = 1"
    by (simp_all add: first_session_after_def level_store_def)
  show ?thesis
    using first_iteration e a train_iteration_schedule [OF first_iteration]
    by auto
qed

text \<open>
  C8. Every iteration of the training loop that completes ends with these calls, in this
  order: the generator loss is evaluated, the averaged discriminator loss and the generator
  loss are printed, the generator gradient step is applied, and the model state is
  persisted. Nothing is printed, no generator step is made and nothing is persisted earlier
  in the iteration. The one line printed holds the mean of the thirty discriminator losses
  of the iteration's discriminator updates, and the generator loss on a fresh batch at the
  variables as they are before the generator step; the persisted state is the state of the
  variables after the generator step. The print comes before the persist.
\<close>

theorem train_iteration_print_then_persist:
  assumes "train_iteration W E G smp s = Inr s'"
  shows "\<exists>pre losses s1 batch loss.
           events s' = events s @ pre @ [RunGenObj, PrintLosses, RunOptGen, SaveCheckpoint]
         \<and> PrintLosses \<notin> set pre \<and> RunOptGen \<notin> set pre \<and> SaveCheckpoint \<notin> set pre
         \<and> length losses = 30
         \<and> disc_updates W E G smp s losses s1
         \<and> sample_feed_dict W smp (draws s1) = Inr (batch, draws s')
         \<and> generator_objective E G (variables s1) (noise batch) = Inr loss
         \<and> stdout s' = stdout s @ [(sum_list losses / 30, loss)]
         \<and> minimize W (\<lambda>st. generator_objective E G st (noise batch))
              (generator_vars G) (gen_adam s1) (variables s1) = Inr (gen_adam s', variables s')
         \<and> checkpoint s' = Some (variables s')"
proof -
  let ?pre = "concat (replicate 30 disc_round) @ [SampleBatch]"
  from train_iteration_effect [OF assms] obtain losses s1 batch loss where
      l: "length losses = 30"
    and u: "disc_updates W E G smp s losses s1"
    and b: "sample_feed_dict W smp (draws s1) = Inr (batch, draws s')"
    and o: "generator_objective E G (variables s1) (noise batch) = Inr loss"
    and p: "stdout s' = stdout s1 @ [(sum_list losses / 30, loss)]"
    and m: "minimize W (\<lambda>st. generator_objective E G st (noise batch))
              (generator_vars G) (gen_adam s1) (variables s1) = Inr (gen_adam s', variables s')"
    and c: "checkpoint s' = Some (variables s')"
    by blast
  have p': "stdout s' = stdout s @ [(sum_list losses / 30, loss)]"
    using p disc_updates_keeps [OF u] by simp
  have e: "events s' = events s @ ?pre @ [RunGenObj, PrintLosses, RunOptGen, SaveCheckpoint]"
    using train_iteration_log(1) [OF assms] by (simp add: gen_round_def)
  have n: "PrintLosses \<notin> set ?pre \<and> RunOptGen \<notin> set ?pre \<and> SaveCheckpoint \<notin> set ?pre"
    using rounds_set [of 30] by (auto simp add: disc_round_def)
  show ?thesis
    using e n l u b o p' m c by blast
qed

theorem train_iteration_print_then_persist_witness:
  "train_iteration shift_env id_engine small_gan small_samples first_session
     = Inr first_session_after
   \<and> stdout first_session = []
   \<and> stdout first_session_after = [(- (1421 / 375), - (393 / 100))]
   \<and> generator_objective id_engine small_gan (level_store 0 (1 / 100)) (noise white_feed)
       = Inr (- (393 / 100))
   \<and> variables first_session_after = level_store 1 (1 / 100)
   \<and> checkpoint first_session_after = Some (variables first_session_after)"
proof -
  have e: "stdout first_session = []"
      "stdout first_session_after = [(- (1421 / 375), - (393 / 100))]"
      "variables first_session_after = level_store 1 (1 / 100)"
    by (simp_all add: first_session_def first_session_after_def)
  have o: "generator_objective id_engine small_gan (level_store 0 (1 / 100)) (noise white_feed)
       = Inr (- (393 / 100))"
    using level_gen_obj [of "1 / 100"] by simp
  show ?thesis
    using first_iteration e o train_iteration_print_then_persist [OF first_iteration]
    by auto
qed

text \<open>
  The claim as the specification states it, persist first and print after, fails on a
  run of the loop body: the only persist is the last call, and no print follows it.
\<close>

theorem persist_before_print_counterexample:
  "train_iteration shift_env id_engine small_gan small_samples first_session
     = Inr first_session_after
   \<and> events first_session = []
   \<and> \<not> precedes SaveCheckpoint PrintLosses (events first_session_after)
   \<and> precedes PrintLosses SaveCheckpoint (events first_session_after)"
proof -
  have "events first_session_after = concat (replicate 30 disc_round) @ gen_round"
    by (simp add: first_session_after_def)
  then show ?thesis
    using first_iteration
    by (simp add: precedes_def rounds_from_save rounds_from_print first_session_def)
qed

section \<open>Wrong usage of the command line\<close>

text \<open>
  C9. Without a subcommand the program prints the usage line. With a subcommand other than
  create, train and generate it prints the line "Unknown command: " followed by that
  subcommand. In both cases it then calls \<open>sys.exit\<close> without an argument, so the exit
  status is the same, 0, and no model operation is run.
\<close>

theorem main_wrong_usage:
  "(length argv < 2 \<longrightarrow> main argv = [PrintLine usage, SysExit None])
   \<and> (2 \<le> length argv \<and> argv ! 1 \<notin> {''create'', ''train'', ''generate''} \<longrightarrow>
        main argv = [PrintLine (''Unknown command: '' @ argv ! 1), SysExit None])
   \<and> (length argv < 2 \<or> argv ! 1 \<notin> {''create'', ''train'', ''generate''} \<longrightarrow>
        exit_status (main argv) = 0 \<and> \<not> list_ex model_operation (main argv))"
  by (simp add: main_def)

theorem main_wrong_usage_witness:
  "length [''mnist_gan''] < 2
   \<and> main [''mnist_gan''] = [PrintLine usage, SysExit None]
   \<and> 2 \<le> length [''mnist_gan'', ''foo'']
   \<and> [''mnist_gan'', ''foo''] ! 1 \<notin> {''create'', ''train'', ''generate''}
   \<and> main [''mnist_gan'', ''foo''] = [PrintLine ''Unknown command: foo'', SysExit None]
   \<and> exit_status (main [''mnist_gan'']) = exit_status (main [''mnist_gan'', ''foo''])
   \<and> \<not> list_ex model_operation (main [''mnist_gan''])
   \<and> \<not> list_ex model_operation (main [''mnist_gan'', ''foo''])"
  using main_wrong_usage [of "[''mnist_gan'']"] main_wrong_usage [of "[''mnist_gan'', ''foo'']"]
  by simp

text \<open>
  The claim as the specification states it, a usage message in both cases, fails for an
  unknown subcommand: the usage line is not among what is printed.
\<close>

theorem unknown_command_usage_counterexample:
  "main [''mnist_gan'', ''foo''] = [PrintLine ''Unknown command: foo'', SysExit None]
   \<and> PrintLine usage \<notin> set (main [''mnist_gan'', ''foo''])"
  by (simp add: main_def usage_def)

end
